theory Spec2Isabelle
  imports Complex_Main "HOL-Library.Multiset" "HOL-Library.Log_Nat"
begin

section \<open>Shared vocabulary of the request handlers\<close>

text \<open>
  The application is a set of Flask request handlers over three SQLAlchemy tables.
  A handler's effects are made explicit: the table contents it reads and writes are
  passed in and returned, flashed messages are returned as a list, a raised Python
  exception is the \<open>Inl\<close> branch of a sum (the store is then the one passed in:
  the failed transaction is rolled back), and the rendered page or redirect is a
  value of type \<open>response\<close>. A handler decorated with \<open>login_required\<close> is
  modelled by its body, which runs only for a signed-in account; where the body
  reads \<open>current_user\<close>, that account is an argument.
\<close>

datatype py_error =
    IntegrityError
  | ZeroDivisionError
  | OverflowError
  | ValueError
  | TypeError
  | KeyError
  | IndexError
  | AttributeError
  | RequestException string

datatype http_method = GET | POST

text \<open>\<open>request.form.get(name)\<close>: the field's value, or \<open>None\<close> when it is absent.\<close>

type_synonym form = "string \<rightharpoonup> string"

section \<open>Persistence layer\<close>

text \<open>
  One record per model class; a field \<open>f\<close> of class \<open>C\<close> is \<open>C_f\<close>. Columns declared
  \<open>nullable=False\<close> hold plain values, the nullable \<open>zip_code\<close> an option.
  \<open>Post.likes\<close> is declared with \<open>default=0\<close> and every insert of the application
  leaves it to that default, so it is modelled as an integer. Integer columns are
  Python integers (unbounded); string columns carry no length check (SQLite
  enforces none).
\<close>

record user =
  User_id :: int
  User_username :: string
  User_email :: string
  User_password :: string
  User_zip_code :: "string option"

record post =
  Post_id :: int
  Post_content :: string
  Post_user_id :: int
  Post_likes :: int

record comment =
  Comment_id :: int
  Comment_content :: string
  Comment_user_id :: int
  Comment_post_id :: int

text \<open>A table is the list of its rows in insertion order.\<close>

record database =
  users :: "user list"
  posts :: "post list"
  comments :: "comment list"

definition empty_db :: database where
  "empty_db = \<lparr>users = [], posts = [], comments = []\<rparr>"

text \<open>
  An integer primary key left unset at insert receives the largest key of the
  table plus one, and 1 in an empty table.
\<close>

fun next_id :: "int list \<Rightarrow> int" where
  "next_id [] = 1"
| "next_id (k # ks) = fold max ks k + 1"

text \<open>
  SQLite stores an integer in 64 bits, and a Python integer handed to it as a
  statement parameter must fit: binding a larger one raises \<open>OverflowError\<close>
  before the statement runs.
\<close>

definition sqlite_integer :: "int \<Rightarrow> bool" where
  "sqlite_integer i = (- (2 ^ 63) \<le> i \<and> i < 2 ^ 63)"

text \<open>The row of the post table with a given primary key, if any.\<close>

definition post_with_id :: "database \<Rightarrow> int \<Rightarrow> post option" where
  "post_with_id db pid = find (\<lambda>p. Post_id p = pid) (posts db)"

text \<open>
  \<open>Post.query.get(post_id)\<close>: the key is bound as a parameter of the \<open>SELECT\<close>,
  which then yields the row with that primary key, if any.
\<close>

definition Post_query_get :: "database \<Rightarrow> int \<Rightarrow> py_error + post option" where
  "Post_query_get db pid =
     (if sqlite_integer pid then Inr (post_with_id db pid) else Inl OverflowError)"

text \<open>\<open>User.query.filter_by(username=username).first()\<close>; a missing form field
  compares against NULL and matches no row.\<close>

definition User_query_filter_by_username :: "database \<Rightarrow> string option \<Rightarrow> user option" where
  "User_query_filter_by_username db name =
     (case name of
        None \<Rightarrow> None
      | Some n \<Rightarrow> find (\<lambda>u. User_username u = n) (users db))"

text \<open>
  A JSON value as \<open>response.json()\<close> returns it: an object is a dictionary, held
  as the list of its entries.
\<close>

datatype json =
    JNull
  | JBool bool
  | JInt int
  | JFloat string
  | JStr string
  | JArr "json list"
  | JObj "(string \<times> json) list"

text \<open>
  A Python float: a finite binary64 value, given by the rational number it
  denotes, an infinity or a NaN. The two zeros are not told apart (they compare
  equal in Python).
\<close>

datatype pyfloat = Finite rat | PosInf | NegInf | NaN

text \<open>The dictionary built for each official in \<open>representatives\<close>.\<close>

record representative =
  rep_name :: json
  rep_office :: json
  rep_party :: json
  rep_phones :: json
  rep_urls :: json
  rep_emails :: json
  rep_photoUrl :: json

datatype template_context =
    NoContext
  | PostsContext "post list"
  | ScoreContext pyfloat
  | RepresentativesContext "representative list"

datatype response =
    Redirect string
  | Render string template_context

section \<open>Feed service\<close>

text \<open>
  \<open>index\<close>: \<open>Post.query.order_by(Post.id.desc()).all()\<close>, rendered.
\<close>

definition index :: "database \<Rightarrow> response" where
  "index db = Render ''index.html'' (PostsContext (sort_key (\<lambda>p. - Post_id p) (posts db)))"

text \<open>
  \<open>create_post\<close>: the content is read from the form and the row is added and
  committed. \<open>Post.content\<close> is declared \<open>nullable=False\<close>, so a request without the
  \<open>content\<close> field fails at commit.
\<close>

definition create_post :: "user \<Rightarrow> database \<Rightarrow> form \<Rightarrow> py_error + (database \<times> response)" where
  "create_post current_user db frm =
     (case frm ''content'' of
        None \<Rightarrow> Inl IntegrityError
      | Some content \<Rightarrow>
          Inr (db\<lparr>posts := posts db @
                 [\<lparr>Post_id = next_id (map Post_id (posts db)),
                   Post_content = content,
                   Post_user_id = User_id current_user,
                   Post_likes = 0\<rparr>]\<rparr>,
               Redirect ''index''))"

text \<open>
  \<open>like_post\<close>: the row is fetched by primary key; when there is one, its counter
  read from the row plus one is written back to the row with that key at commit,
  where the new counter is bound as a parameter. Both branches end in the same
  redirect. The \<open>post_id\<close> of the route \<open>/like/<int:post_id>\<close> is any non-negative
  integer.
\<close>

definition like_post :: "database \<Rightarrow> int \<Rightarrow> py_error + (database \<times> response)" where
  "like_post db post_id =
     (case Post_query_get db post_id of
        Inl e \<Rightarrow> Inl e
      | Inr (Some p) \<Rightarrow>
          if sqlite_integer (Post_likes p + 1)
          then Inr (db\<lparr>posts := map (\<lambda>q. if Post_id q = post_id
                                          then q\<lparr>Post_likes := Post_likes p + 1\<rparr> else q)
                                   (posts db)\<rparr>,
                    Redirect ''index'')
          else Inl OverflowError
      | Inr None \<Rightarrow> Inr (db, Redirect ''index''))"

text \<open>
  \<open>add_comment\<close>: inserted without looking the post up (SQLite does not check the
  foreign key). The \<open>post_id\<close> of the route is bound as a parameter of the
  \<open>INSERT\<close> at commit; the statement then fails when the content is missing.
  \<open>current_user\<close> is a stored row, so its key is a stored integer.
\<close>

definition add_comment :: "user \<Rightarrow> database \<Rightarrow> int \<Rightarrow> form \<Rightarrow> py_error + (database \<times> response)" where
  "add_comment current_user db post_id frm =
     (if \<not> sqlite_integer post_id then Inl OverflowError
      else case frm ''content'' of
        None \<Rightarrow> Inl IntegrityError
      | Some content \<Rightarrow>
          Inr (db\<lparr>comments := comments db @
                 [\<lparr>Comment_id = next_id (map Comment_id (comments db)),
                   Comment_content = content,
                   Comment_user_id = User_id current_user,
                   Comment_post_id = post_id\<rparr>]\<rparr>,
               Redirect ''index''))"

section \<open>Credential store\<close>

text \<open>
  Hashing and verification are the two functions imported from
  \<open>werkzeug.security\<close>; they are not code of this application and are taken as
  parameters. \<open>generate_password_hash\<close> draws a random salt, which is an explicit
  argument here (after the method name); both functions receive whatever the form
  held, also \<open>None\<close>, and may raise.
\<close>

record security =
  generate_password_hash :: "string \<Rightarrow> string \<Rightarrow> string option \<Rightarrow> py_error + string"
  check_password_hash :: "string \<Rightarrow> string option \<Rightarrow> py_error + bool"

text \<open>
  The library's contract used below: a hash generated for a password string with
  the method the application passes verifies against that same password.
\<close>

definition hash_round_trip :: "security \<Rightarrow> bool" where
  "hash_round_trip lib =
     (\<forall>salt pw. case generate_password_hash lib ''pbkdf2:sha256'' salt (Some pw) of
                  Inl e \<Rightarrow> False
                | Inr h \<Rightarrow> check_password_hash lib h (Some pw) = Inr True)"

section \<open>Registration and login\<close>

text \<open>
  \<open>db.session.add(new_user); db.session.commit()\<close> for the \<open>User\<close> table: \<open>username\<close>
  and \<open>email\<close> are declared \<open>unique=True, nullable=False\<close>, so the commit raises
  \<open>IntegrityError\<close> when either is missing or already stored.
\<close>

definition session_add_user ::
  "database \<Rightarrow> string option \<Rightarrow> string option \<Rightarrow> string \<Rightarrow> string option \<Rightarrow> py_error + database" where
  "session_add_user db username email pwhash zip_code =
     (case (username, email) of
        (Some n, Some e) \<Rightarrow>
          if n \<in> set (map User_username (users db)) \<or> e \<in> set (map User_email (users db))
          then Inl IntegrityError
          else Inr (db\<lparr>users := users db @
                      [\<lparr>User_id = next_id (map User_id (users db)),
                        User_username = n,
                        User_email = e,
                        User_password = pwhash,
                        User_zip_code = zip_code\<rparr>]\<rparr>)
      | _ \<Rightarrow> Inl IntegrityError)"

text \<open>
  \<open>register\<close> returns the store, the flashed messages and the response.
\<close>

definition register ::
  "security \<Rightarrow> string \<Rightarrow> database \<Rightarrow> http_method \<Rightarrow> form
     \<Rightarrow> py_error + (database \<times> string list \<times> response)" where
  "register lib salt db method frm =
     (case method of
        POST \<Rightarrow>
          (let username = frm ''username'';
               email = frm ''email'';
               password = frm ''password'';
               zip_code = frm ''zip_code''
           in case User_query_filter_by_username db username of
                Some user \<Rightarrow> Inr (db, [''Username already exists''], Redirect ''register'')
              | None \<Rightarrow>
                  (case generate_password_hash lib ''pbkdf2:sha256'' salt password of
                     Inl e \<Rightarrow> Inl e
                   | Inr pwhash \<Rightarrow>
                       (case session_add_user db username email pwhash zip_code of
                          Inl e \<Rightarrow> Inl e
                        | Inr db' \<Rightarrow> Inr (db', [], Redirect ''login''))))
      | GET \<Rightarrow> Inr (db, [], Render ''register.html'' NoContext))"

text \<open>
  \<open>login\<close> returns the account passed to \<open>login_user\<close> (if any), the flashed
  messages and the response. The \<open>else\<close> branch serves both a missing account and
  a password that does not verify, and falls through to the page of a \<open>GET\<close>.
\<close>

definition login ::
  "security \<Rightarrow> database \<Rightarrow> http_method \<Rightarrow> form
     \<Rightarrow> py_error + (user option \<times> string list \<times> response)" where
  "login lib db method frm =
     (case method of
        POST \<Rightarrow>
          (let username = frm ''username'';
               password = frm ''password''
           in case User_query_filter_by_username db username of
                None \<Rightarrow> Inr (None, [''Invalid username or password''], Render ''login.html'' NoContext)
              | Some user \<Rightarrow>
                  (case check_password_hash lib (User_password user) password of
                     Inl e \<Rightarrow> Inl e
                   | Inr True \<Rightarrow> Inr (Some user, [], Redirect ''index'')
                   | Inr False \<Rightarrow>
                       Inr (None, [''Invalid username or password''], Render ''login.html'' NoContext)))
      | GET \<Rightarrow> Inr (None, [], Render ''login.html'' NoContext))"

section \<open>Sequences of store-changing requests\<close>

text \<open>
  The four handlers that write to the store, as one request type; a request that
  raises leaves the store as it was.
\<close>

datatype action =
    Register string http_method form
  | CreatePost user form
  | LikePost int
  | AddComment user int form

fun step :: "security \<Rightarrow> database \<Rightarrow> action \<Rightarrow> database" where
  "step lib db (Register salt method frm) =
     (case register lib salt db method frm of Inr (db', _) \<Rightarrow> db' | Inl _ \<Rightarrow> db)"
| "step lib db (CreatePost u frm) =
     (case create_post u db frm of Inr (db', _) \<Rightarrow> db' | Inl _ \<Rightarrow> db)"
| "step lib db (LikePost pid) =
     (case like_post db pid of Inr (db', _) \<Rightarrow> db' | Inl _ \<Rightarrow> db)"
| "step lib db (AddComment u pid frm) =
     (case add_comment u db pid frm of Inr (db', _) \<Rightarrow> db' | Inl _ \<Rightarrow> db)"

definition run :: "security \<Rightarrow> database \<Rightarrow> action list \<Rightarrow> database" where
  "run lib db acts = foldl (step lib) db acts"

section \<open>Quiz scorer\<close>

text \<open>
  Python's float arithmetic is IEEE binary64 with round-to-nearest, ties to even.
  \<open>round_half_even\<close> rounds a rational to the nearest integer, \<open>floor_log2 x\<close> is
  the exponent \<open>e\<close> with \<open>2^e \<le> x < 2^(e+1)\<close> of a positive \<open>x\<close>, and
  \<open>round_binary64 x\<close> is the multiple of the unit in the last place (53 significant
  bits, least exponent -1022) nearest to \<open>x\<close>; the exponent range is checked by
  the operations that use it.
\<close>

definition round_half_even :: "rat \<Rightarrow> int" where
  "round_half_even x =
     (let f = \<lfloor>x\<rfloor>; d = x - of_int f
      in if d < 1 / 2 then f
         else if 1 / 2 < d then f + 1
         else if even f then f else f + 1)"

definition pow2 :: "int \<Rightarrow> rat" where
  "pow2 e = (if 0 \<le> e then 2 ^ nat e else 1 / 2 ^ nat (- e))"

definition floor_log2 :: "rat \<Rightarrow> int" where
  "floor_log2 x =
     (let d = bitlen (fst (quotient_of x)) - bitlen (snd (quotient_of x))
      in if pow2 d \<le> x then d else d - 1)"

definition round_binary64 :: "rat \<Rightarrow> rat" where
  "round_binary64 x =
     (if x = 0 then 0
      else let e = max (floor_log2 \<bar>x\<bar>) (- 1022);
               ulp = pow2 (e - 52)
           in of_int (round_half_even (x / ulp)) * ulp)"

text \<open>
  \<open>a / b\<close> on integers: the correctly rounded quotient; \<open>ZeroDivisionError\<close> for a
  zero divisor and \<open>OverflowError\<close> when the rounded quotient is beyond the
  largest float.
\<close>

definition int_truediv :: "int \<Rightarrow> int \<Rightarrow> py_error + pyfloat" where
  "int_truediv a b =
     (if b = 0 then Inl ZeroDivisionError
      else let r = round_binary64 (of_int a / of_int b)
           in if 2 ^ 1024 \<le> \<bar>r\<bar> then Inl OverflowError else Inr (Finite r))"

text \<open>The float nearest to an exact result; beyond the largest float it is an infinity.\<close>

definition float_of_exact :: "rat \<Rightarrow> pyfloat" where
  "float_of_exact x =
     (let r = round_binary64 x
      in if 2 ^ 1024 \<le> r then PosInf else if r \<le> - (2 ^ 1024) then NegInf else Finite r)"

fun float_mul :: "pyfloat \<Rightarrow> pyfloat \<Rightarrow> pyfloat" where
  "float_mul (Finite a) (Finite b) = float_of_exact (a * b)"
| "float_mul NaN _ = NaN"
| "float_mul _ NaN = NaN"
| "float_mul (Finite a) PosInf = (if a = 0 then NaN else if 0 < a then PosInf else NegInf)"
| "float_mul (Finite a) NegInf = (if a = 0 then NaN else if 0 < a then NegInf else PosInf)"
| "float_mul PosInf (Finite b) = (if b = 0 then NaN else if 0 < b then PosInf else NegInf)"
| "float_mul NegInf (Finite b) = (if b = 0 then NaN else if 0 < b then NegInf else PosInf)"
| "float_mul PosInf PosInf = PosInf"
| "float_mul NegInf NegInf = PosInf"
| "float_mul PosInf NegInf = NegInf"
| "float_mul NegInf PosInf = NegInf"

text \<open>
  \<open>round(x, ndigits)\<close> for a small non-negative \<open>ndigits\<close>: the exact value of \<open>x\<close>
  is rounded, ties to even, to that many decimal places, and the decimal result is
  converted to the nearest float; infinities and NaN round to themselves.
\<close>

fun py_round :: "pyfloat \<Rightarrow> nat \<Rightarrow> py_error + pyfloat" where
  "py_round (Finite x) ndigits =
     (let r = round_binary64 (of_int (round_half_even (x * 10 ^ ndigits)) / 10 ^ ndigits)
      in if 2 ^ 1024 \<le> \<bar>r\<bar> then Inl OverflowError else Inr (Finite r))"
| "py_round f ndigits = Inr f"

text \<open>The float written as the decimal literal \<open>n / 10\<close>, such as \<open>66.7\<close>.\<close>

definition float_of_tenths :: "int \<Rightarrow> pyfloat" where
  "float_of_tenths n = Finite (round_binary64 (of_int n / 10))"

definition calculate_civic_engagement_score :: "int list \<Rightarrow> py_error + pyfloat" where
  "calculate_civic_engagement_score answers =
     (let total_questions = int (length answers);
          correct_answers = sum_list answers
      in case int_truediv correct_answers total_questions of
           Inl e \<Rightarrow> Inl e
         | Inr ratio \<Rightarrow> py_round (float_mul ratio (Finite 100)) 1)"

text \<open>
  \<open>int(request.form.get(name, 0))\<close>: an absent field gives the default \<open>0\<close>, a
  present one is converted by Python's \<open>int\<close>, a parameter here, which may raise.
\<close>

definition form_answer :: "(string \<Rightarrow> py_error + int) \<Rightarrow> form \<Rightarrow> string \<Rightarrow> py_error + int" where
  "form_answer py_int frm name = (case frm name of None \<Rightarrow> Inr 0 | Some s \<Rightarrow> py_int s)"

definition civic_quiz :: "(string \<Rightarrow> py_error + int) \<Rightarrow> http_method \<Rightarrow> form \<Rightarrow> py_error + response" where
  "civic_quiz py_int method frm =
     (case method of
        POST \<Rightarrow>
          (case form_answer py_int frm ''answer1'' of
             Inl e \<Rightarrow> Inl e
           | Inr a1 \<Rightarrow>
               (case form_answer py_int frm ''answer2'' of
                  Inl e \<Rightarrow> Inl e
                | Inr a2 \<Rightarrow>
                    (case form_answer py_int frm ''answer3'' of
                       Inl e \<Rightarrow> Inl e
                     | Inr a3 \<Rightarrow>
                         (case calculate_civic_engagement_score [a1, a2, a3] of
                            Inl e \<Rightarrow> Inl e
                          | Inr score \<Rightarrow> Inr (Render ''quiz_result.html'' (ScoreContext score))))))
      | GET \<Rightarrow> Inr (Render ''civic_quiz.html'' NoContext))"

section \<open>Representative lookup\<close>

text \<open>
  Python's operations on the values of a parsed JSON document, with the
  exceptions they raise. \<open>dict_get d key default\<close> is \<open>d.get(key, default)\<close>, which
  only a dictionary has.
\<close>

definition dict_get :: "json \<Rightarrow> string \<Rightarrow> json \<Rightarrow> py_error + json" where
  "dict_get d key dflt =
     (case d of
        JObj kvs \<Rightarrow> Inr (case map_of kvs key of Some v \<Rightarrow> v | None \<Rightarrow> dflt)
      | _ \<Rightarrow> Inl AttributeError)"

text \<open>
  An index into a list or a string counts from the end when negative; a boolean
  is an integer.
\<close>

definition seq_index :: "'a list \<Rightarrow> int \<Rightarrow> py_error + 'a" where
  "seq_index xs i =
     (if 0 \<le> i
      then (if nat i < length xs then Inr (xs ! nat i) else Inl IndexError)
      else (if nat (- i) \<le> length xs then Inr (xs ! (length xs - nat (- i)))
            else Inl IndexError))"

fun index_value :: "json \<Rightarrow> int option" where
  "index_value (JInt i) = Some i"
| "index_value (JBool b) = Some (if b then 1 else 0)"
| "index_value _ = None"

text \<open>\<open>getitem obj key\<close> is \<open>obj[key]\<close>.\<close>

fun getitem :: "json \<Rightarrow> json \<Rightarrow> py_error + json" where
  "getitem (JObj kvs) (JStr s) = (case map_of kvs s of Some v \<Rightarrow> Inr v | None \<Rightarrow> Inl KeyError)"
| "getitem (JObj kvs) (JArr _) = Inl TypeError"
| "getitem (JObj kvs) (JObj _) = Inl TypeError"
| "getitem (JObj kvs) _ = Inl KeyError"
| "getitem (JArr xs) key =
     (case index_value key of Some i \<Rightarrow> seq_index xs i | None \<Rightarrow> Inl TypeError)"
| "getitem (JStr s) key =
     (case index_value key of
        Some i \<Rightarrow> (case seq_index s i of Inl e \<Rightarrow> Inl e | Inr c \<Rightarrow> Inr (JStr [c]))
      | None \<Rightarrow> Inl TypeError)"
| "getitem _ _ = Inl TypeError"

text \<open>The values a \<open>for\<close> loop over a JSON value runs through.\<close>

fun py_iter :: "json \<Rightarrow> py_error + json list" where
  "py_iter (JArr xs) = Inr xs"
| "py_iter (JStr s) = Inr (map (\<lambda>c. JStr [c]) s)"
| "py_iter (JObj kvs) = Inr (map (\<lambda>kv. JStr (fst kv)) kvs)"
| "py_iter _ = Inl TypeError"

text \<open>
  The body of the inner loop: the official is looked up, then the dictionary is
  built, its entries evaluated in the order written.
\<close>

definition make_rep :: "json \<Rightarrow> json \<Rightarrow> json \<Rightarrow> py_error + representative" where
  "make_rep officials office idx =
     (case getitem officials idx of Inl e \<Rightarrow> Inl e | Inr official \<Rightarrow>
      case dict_get official ''name'' JNull of Inl e \<Rightarrow> Inl e | Inr name \<Rightarrow>
      case dict_get office ''name'' JNull of Inl e \<Rightarrow> Inl e | Inr office_name \<Rightarrow>
      case dict_get official ''party'' JNull of Inl e \<Rightarrow> Inl e | Inr party \<Rightarrow>
      case dict_get official ''phones'' (JArr []) of Inl e \<Rightarrow> Inl e | Inr phones \<Rightarrow>
      case dict_get official ''urls'' (JArr []) of Inl e \<Rightarrow> Inl e | Inr urls \<Rightarrow>
      case dict_get official ''emails'' (JArr []) of Inl e \<Rightarrow> Inl e | Inr emails \<Rightarrow>
      case dict_get official ''photoUrl'' JNull of Inl e \<Rightarrow> Inl e | Inr photo \<Rightarrow>
        Inr \<lparr>rep_name = name, rep_office = office_name, rep_party = party,
             rep_phones = phones, rep_urls = urls, rep_emails = emails,
             rep_photoUrl = photo\<rparr>)"

fun reps_of_indices :: "json \<Rightarrow> json \<Rightarrow> json list \<Rightarrow> py_error + representative list" where
  "reps_of_indices officials office [] = Inr []"
| "reps_of_indices officials office (idx # rest) =
     (case make_rep officials office idx of Inl e \<Rightarrow> Inl e | Inr rep \<Rightarrow>
      case reps_of_indices officials office rest of Inl e \<Rightarrow> Inl e | Inr reps \<Rightarrow>
        Inr (rep # reps))"

fun reps_of_offices :: "json \<Rightarrow> json list \<Rightarrow> py_error + representative list" where
  "reps_of_offices officials [] = Inr []"
| "reps_of_offices officials (office # rest) =
     (case getitem office (JStr ''officialIndices'') of Inl e \<Rightarrow> Inl e | Inr indices \<Rightarrow>
      case py_iter indices of Inl e \<Rightarrow> Inl e | Inr idxs \<Rightarrow>
      case reps_of_indices officials office idxs of Inl e \<Rightarrow> Inl e | Inr reps \<Rightarrow>
      case reps_of_offices officials rest of Inl e \<Rightarrow> Inl e | Inr others \<Rightarrow>
        Inr (reps @ others))"

text \<open>
  The \<open>requests\<close> library is not code of this application. A call of
  \<open>requests.get\<close> either raises (a transport failure is a \<open>RequestException\<close>
  carrying its message) or returns a response, and a response is given by what
  its two methods used here do: \<open>raise_for_status()\<close> raises an \<open>HTTPError\<close>, which
  is a \<open>RequestException\<close>, when the status is an error status, and \<open>json()\<close>
  returns the parsed body or raises.
\<close>

record http_response =
  raise_for_status :: "py_error + unit"
  response_json :: "py_error + json"

type_synonym http_client = "string \<Rightarrow> py_error + http_response"

definition missing_zip_message :: string where
  "missing_zip_message = ''Please update your zip code in your profile.''"

definition lookup_error_message :: "string \<Rightarrow> string" where
  "lookup_error_message e = ''Error fetching representative information: '' @ e"

text \<open>The statements of the \<open>try\<close> block, after the URL is built.\<close>

definition fetch_representatives :: "http_client \<Rightarrow> string \<Rightarrow> py_error + (string list \<times> response)" where
  "fetch_representatives requests_get api_url =
     (case requests_get api_url of Inl e \<Rightarrow> Inl e | Inr response \<Rightarrow>
      case raise_for_status response of Inl e \<Rightarrow> Inl e | Inr _ \<Rightarrow>
      case response_json response of Inl e \<Rightarrow> Inl e | Inr data \<Rightarrow>
      case dict_get data ''offices'' (JArr []) of Inl e \<Rightarrow> Inl e | Inr offices \<Rightarrow>
      case dict_get data ''officials'' (JArr []) of Inl e \<Rightarrow> Inl e | Inr officials \<Rightarrow>
      case py_iter offices of Inl e \<Rightarrow> Inl e | Inr office_list \<Rightarrow>
      case reps_of_offices officials office_list of Inl e \<Rightarrow> Inl e | Inr reps \<Rightarrow>
        Inr ([], Render ''representatives.html'' (RepresentativesContext reps)))"

text \<open>
  \<open>representatives\<close> returns the URLs requested from the external service, in
  order, and then either a propagated exception or the flashed messages and the
  response. \<open>GOOGLE_CIVIC_API_KEY\<close> and the HTTP client are parameters. The
  \<open>except\<close> clause catches \<open>RequestException\<close> only.
\<close>

definition representatives ::
  "string \<Rightarrow> http_client \<Rightarrow> user \<Rightarrow> string list \<times> (py_error + (string list \<times> response))" where
  "representatives GOOGLE_CIVIC_API_KEY requests_get current_user =
     (case User_zip_code current_user of
        None \<Rightarrow> ([], Inr ([missing_zip_message], Redirect ''index''))
      | Some zip_code \<Rightarrow>
          if zip_code = [] then ([], Inr ([missing_zip_message], Redirect ''index''))
          else
            (let api_url = ''https://www.googleapis.com/civicinfo/v2/representatives?key=''
                   @ GOOGLE_CIVIC_API_KEY @ ''&address='' @ zip_code
             in ([api_url],
                 case fetch_representatives requests_get api_url of
                   Inl (RequestException e) \<Rightarrow> Inr ([lookup_error_message e], Redirect ''index'')
                 | Inl e \<Rightarrow> Inl e
                 | Inr page \<Rightarrow> Inr page)))"

text \<open>
  A stand-in for the hashing library, used to instantiate the statements below at
  concrete requests: the ``hash'' is the method, the salt and the password joined
  by dollar signs, and verification compares the end of the hash. A missing
  password (\<open>None\<close>) raises \<open>AttributeError\<close>, as it does in the library, which
  encodes the password it is given.
\<close>

definition example_security :: security where
  "example_security =
     \<lparr>generate_password_hash = (\<lambda>method salt pw.
         case pw of None \<Rightarrow> Inl AttributeError
                  | Some p \<Rightarrow> Inr (method @ ''$'' @ salt @ ''$'' @ p)),
       check_password_hash = (\<lambda>h pw.
         case pw of None \<Rightarrow> Inl AttributeError
                  | Some p \<Rightarrow> Inr (length p < length h \<and>
                                    drop (length h - length p - 1) h = ''$'' @ p))\<rparr>"

definition likes_nonneg :: "database \<Rightarrow> bool" where
  "likes_nonneg db = (\<forall>p \<in> set (posts db). 0 \<le> Post_likes p)"

text \<open>A small store and two registration forms for the same handle.\<close>

definition example_account :: user where
  "example_account =
     \<lparr>User_id = 1, User_username = ''alice'', User_email = ''alice@example.org'',
      User_password = ''pbkdf2:sha256$na$wonderland'', User_zip_code = Some ''94110''\<rparr>"

text \<open>A client for the examples: one office with two officials, or a failure.\<close>

definition example_civic_data :: json where
  "example_civic_data =
     JObj [(''offices'', JArr [JObj [(''name'', JStr ''Mayor''),
                                      (''officialIndices'', JArr [JInt 1, JInt 0])]]),
           (''officials'', JArr [JObj [(''name'', JStr ''Ann''), (''party'', JStr ''A'')],
                                 JObj [(''name'', JStr ''Ben''),
                                       (''phones'', JArr [JStr ''555-0100''])]])]"

definition client_ok :: http_client where
  "client_ok url = Inr \<lparr>raise_for_status = Inr (), response_json = Inr example_civic_data\<rparr>"



definition no_zip_account :: user where
  "no_zip_account = example_account\<lparr>User_zip_code := None\<rparr>"

definition empty_zip_account :: user where
  "empty_zip_account = example_account\<lparr>User_zip_code := Some []\<rparr>"

definition example_post :: post where
  "example_post = \<lparr>Post_id = 1, Post_content = ''hello'', Post_user_id = 1, Post_likes = 0\<rparr>"

definition full_post :: post where
  "full_post = \<lparr>Post_id = 2, Post_content = ''liked'', Post_user_id = 1,
                 Post_likes = 9223372036854775807\<rparr>"

definition example_db :: database where
  "example_db = \<lparr>users = [example_account], posts = [example_post], comments = []\<rparr>"

definition bob_form_taken_email :: form where
  "bob_form_taken_email =
     [''username'' \<mapsto> ''bob'', ''email'' \<mapsto> ''alice@example.org'',
      ''password'' \<mapsto> ''builder'', ''zip_code'' \<mapsto> ''10001'']"

definition bob_form :: form where
  "bob_form =
     [''username'' \<mapsto> ''bob'', ''email'' \<mapsto> ''bob@example.org'',
      ''password'' \<mapsto> ''builder'', ''zip_code'' \<mapsto> ''10001'']"

definition bob_account :: user where
  "bob_account =
     \<lparr>User_id = 2, User_username = ''bob'', User_email = ''bob@example.org'',
      User_password = ''pbkdf2:sha256$na$builder'', User_zip_code = Some ''10001''\<rparr>"

text \<open>
  The two ways a login attempt is turned down: no account has the submitted
  handle, or the account's stored hash does not verify against the submitted
  password.
\<close>

definition login_turned_down :: "security \<Rightarrow> database \<Rightarrow> form \<Rightarrow> bool" where
  "login_turned_down lib db frm =
     (case User_query_filter_by_username db (frm ''username'') of
        None \<Rightarrow> True
      | Some u \<Rightarrow> check_password_hash lib (User_password u) (frm ''password'') = Inr False)"

definition post_one :: post where
  "post_one = \<lparr>Post_id = 1, Post_content = ''one'', Post_user_id = 1, Post_likes = 0\<rparr>"

definition post_two :: post where
  "post_two = \<lparr>Post_id = 2, Post_content = ''two'', Post_user_id = 1, Post_likes = 0\<rparr>"

definition post_three :: post where
  "post_three = \<lparr>Post_id = 3, Post_content = ''three'', Post_user_id = 1, Post_likes = 0\<rparr>"

text \<open>A conversion for the examples: it reads the strings \<open>0\<close> and \<open>1\<close> only.\<close>

definition bit_int :: "string \<Rightarrow> py_error + int" where
  "bit_int s = (if s = ''0'' then Inr 0 else if s = ''1'' then Inr 1 else Inl ValueError)"

section \<open>Facts about the store\<close>

lemma find_Some_mem: "find P xs = Some x \<Longrightarrow> x \<in> set xs"
  by (induction xs) (auto split: if_splits)

lemma find_append_keep: "find P xs = Some x \<Longrightarrow> find P (xs @ ys) = Some x"
  by (induction xs) (auto split: if_splits)

lemma find_map_upd_same:
  "find (\<lambda>p. Post_id p = k) ps = Some p \<Longrightarrow>
   find (\<lambda>p. Post_id p = k) (map (\<lambda>q. if Post_id q = k then q\<lparr>Post_likes := n\<rparr> else q) ps)
     = Some (p\<lparr>Post_likes := n\<rparr>)"
  by (induction ps) (auto split: if_splits)

lemma find_map_upd_other:
  "j \<noteq> k \<Longrightarrow>
   find (\<lambda>p. Post_id p = j) (map (\<lambda>q. if Post_id q = k then q\<lparr>Post_likes := n\<rparr> else q) ps)
     = find (\<lambda>p. Post_id p = j) ps"
  by (induction ps) (auto split: if_splits)

lemma like_post_hit:
  assumes "sqlite_integer pid" and "post_with_id db pid = Some p"
    and "sqlite_integer (Post_likes p + 1)"
  shows "\<exists>db'. like_post db pid = Inr (db', Redirect ''index'')
           \<and> post_with_id db' pid = Some (p\<lparr>Post_likes := Post_likes p + 1\<rparr>)
           \<and> (\<forall>j. j \<noteq> pid \<longrightarrow> post_with_id db' j = post_with_id db j)
           \<and> users db' = users db
           \<and> comments db' = comments db"
  using assms
  by (simp add: like_post_def Post_query_get_def post_with_id_def find_map_upd_same
      find_map_upd_other)

lemma like_post_miss:
  "sqlite_integer pid \<Longrightarrow> post_with_id db pid = None \<Longrightarrow>
   like_post db pid = Inr (db, Redirect ''index'')"
  by (simp add: like_post_def Post_query_get_def)

lemma like_post_cases:
  "like_post db pid = Inr (db', r) \<Longrightarrow>
   db' = db \<or> (\<exists>p. post_with_id db pid = Some p \<and>
     db' = db\<lparr>posts := map (\<lambda>q. if Post_id q = pid
                                 then q\<lparr>Post_likes := Post_likes p + 1\<rparr> else q) (posts db)\<rparr>)"
  by (auto simp: like_post_def Post_query_get_def split: sum.splits option.splits if_splits)

lemma like_post_mono:
  assumes "post_with_id db k = Some p" and "like_post db pid = Inr (db', r)"
  shows "\<exists>p'. post_with_id db' k = Some p' \<and> Post_likes p \<le> Post_likes p'"
  using like_post_cases[OF assms(2)]
proof
  assume "db' = db"
  then show ?thesis using assms(1) by simp
next
  assume "\<exists>q. post_with_id db pid = Some q \<and>
     db' = db\<lparr>posts := map (\<lambda>x. if Post_id x = pid
                                 then x\<lparr>Post_likes := Post_likes q + 1\<rparr> else x) (posts db)\<rparr>"
  then obtain q where q: "post_with_id db pid = Some q"
    and db': "db' = db\<lparr>posts := map (\<lambda>x. if Post_id x = pid
                                 then x\<lparr>Post_likes := Post_likes q + 1\<rparr> else x) (posts db)\<rparr>"
    by blast
  show ?thesis
  proof (cases "k = pid")
    case True
    with assms(1) q have "q = p" by simp
    then show ?thesis using q True
      by (simp add: db' post_with_id_def find_map_upd_same)
  next
    case False
    then show ?thesis using assms(1)
      by (simp add: db' post_with_id_def find_map_upd_other)
  qed
qed

lemma create_post_mono:
  "post_with_id db k = Some p \<Longrightarrow> create_post u db frm = Inr (db', r) \<Longrightarrow>
   post_with_id db' k = Some p"
  by (auto simp: create_post_def post_with_id_def find_append_keep split: option.splits)

lemma add_comment_posts:
  "add_comment u db pid frm = Inr (db', r) \<Longrightarrow> posts db' = posts db"
  by (auto simp: add_comment_def split: option.splits if_splits)

lemma session_add_user_posts:
  "session_add_user db n e h z = Inr db' \<Longrightarrow> posts db' = posts db"
  by (auto simp: session_add_user_def split: option.splits if_splits)

lemma register_posts:
  "register lib salt db m frm = Inr (db', msgs, r) \<Longrightarrow> posts db' = posts db"
  by (auto simp: register_def Let_def split: http_method.splits option.splits sum.splits
           dest: session_add_user_posts)

lemma step_mono:
  assumes "post_with_id db k = Some p"
  shows "\<exists>p'. post_with_id (step lib db a) k = Some p' \<and> Post_likes p \<le> Post_likes p'"
proof (cases a)
  case (Register salt m frm)
  then show ?thesis using assms
    by (auto simp: post_with_id_def split: sum.splits dest: register_posts)
next
  case (CreatePost u frm)
  then show ?thesis using assms
    by (auto split: sum.splits dest: create_post_mono)
next
  case (LikePost pid)
  then show ?thesis using assms
    by (auto split: sum.splits dest: like_post_mono)
next
  case (AddComment u pid frm)
  then show ?thesis using assms
    by (auto simp: post_with_id_def split: sum.splits dest: add_comment_posts)
qed

lemma run_mono:
  "post_with_id db k = Some p \<Longrightarrow>
   \<exists>p'. post_with_id (run lib db acts) k = Some p' \<and> Post_likes p \<le> Post_likes p'"
proof (induction acts arbitrary: db p)
  case Nil
  then show ?case by (simp add: run_def)
next
  case (Cons a acts)
  from step_mono[OF Cons.prems] obtain q where
    q: "post_with_id (step lib db a) k = Some q" "Post_likes p \<le> Post_likes q" by blast
  from Cons.IH[OF q(1)] obtain p' where
    "post_with_id (run lib (step lib db a) acts) k = Some p'" "Post_likes q \<le> Post_likes p'"
    by blast
  with q(2) show ?case by (auto simp: run_def)
qed

lemma like_post_nonneg:
  "likes_nonneg db \<Longrightarrow> like_post db pid = Inr (db', r) \<Longrightarrow> likes_nonneg db'"
  by (auto simp: likes_nonneg_def like_post_def Post_query_get_def post_with_id_def
           split: sum.splits option.splits if_splits dest!: find_Some_mem)

lemma step_nonneg:
  assumes "likes_nonneg db"
  shows "likes_nonneg (step lib db a)"
proof (cases a)
  case (Register salt m frm)
  then show ?thesis using assms
    by (auto simp: likes_nonneg_def split: sum.splits dest: register_posts)
next
  case (CreatePost u frm)
  then show ?thesis using assms
    by (auto simp: likes_nonneg_def create_post_def split: sum.splits option.splits)
next
  case (LikePost pid)
  then show ?thesis using assms
    by (auto split: sum.splits dest: like_post_nonneg)
next
  case (AddComment u pid frm)
  then show ?thesis using assms
    by (auto simp: likes_nonneg_def split: sum.splits dest: add_comment_posts)
qed

lemma run_nonneg: "likes_nonneg db \<Longrightarrow> likes_nonneg (run lib db acts)"
  by (induction acts arbitrary: db) (simp_all add: run_def step_nonneg)

lemma likes_nonneg_empty: "likes_nonneg empty_db"
  by (simp add: likes_nonneg_def empty_db_def)

lemma drop_to_suffix:
  "drop (length (m @ d # s @ d # p) - length p - 1) (m @ d # s @ d # p) = d # p"
  by simp

lemma example_security_round_trip: "hash_round_trip example_security"
  unfolding hash_round_trip_def example_security_def
  using drop_to_suffix[of "''pbkdf2:sha256''" "CHR ''$''"]
  by (simp del: drop_append)

lemma find_append_miss: "find P xs = None \<Longrightarrow> find P (xs @ ys) = find P ys"
  by (induction xs) (auto split: if_splits)

lemma index_sorted_all:
  "\<exists>ps. index db = Render ''index.html'' (PostsContext ps)
        \<and> mset ps = mset (posts db)
        \<and> sorted_wrt (\<lambda>p q. Post_id q \<le> Post_id p) ps"
proof -
  let ?ps = "sort_key (\<lambda>p. - Post_id p) (posts db)"
  have "sorted (map (\<lambda>p. - Post_id p) ?ps)" by (rule sorted_sort_key)
  then have "sorted_wrt (\<lambda>p q. Post_id q \<le> Post_id p) ?ps"
    by (simp add: sorted_map)
  then show ?thesis by (simp add: index_def)
qed

lemma three_posts:
  assumes "posts db = []"
    and "create_post u1 db f1 = Inr (db1, r1)"
    and "create_post u2 db1 f2 = Inr (db2, r2)"
    and "create_post u3 db2 f3 = Inr (db3, r3)"
  shows "\<exists>P1 P2 P3. posts db1 = [P1] \<and> posts db2 = [P1, P2] \<and> posts db3 = [P1, P2, P3]
           \<and> index db3 = Render ''index.html'' (PostsContext [P3, P2, P1])"
  using assms
  by (auto simp: create_post_def index_def split: option.splits)

lemma fresh_registration_can_log_in:
  assumes rt: "hash_round_trip lib"
    and n: "frm ''username'' = Some n" and e: "frm ''email'' = Some e"
    and pw: "frm ''password'' = Some pw"
    and fresh: "User_query_filter_by_username db (Some n) = None"
    and efresh: "e \<notin> set (map User_email (users db))"
  shows "\<exists>h u db'. generate_password_hash lib ''pbkdf2:sha256'' salt (Some pw) = Inr h
      \<and> u = \<lparr>User_id = next_id (map User_id (users db)), User_username = n, User_email = e,
              User_password = h, User_zip_code = frm ''zip_code''\<rparr>
      \<and> db' = db\<lparr>users := users db @ [u]\<rparr>
      \<and> register lib salt db POST frm = Inr (db', [], Redirect ''login'')
      \<and> (\<forall>frm'. frm' ''username'' = Some n \<and> frm' ''password'' = Some pw \<longrightarrow>
            login lib db' POST frm' = Inr (Some u, [], Redirect ''index''))"
proof -
  from rt have c: "case generate_password_hash lib ''pbkdf2:sha256'' salt (Some pw) of
      Inl e \<Rightarrow> False | Inr h \<Rightarrow> check_password_hash lib h (Some pw) = Inr True"
    unfolding hash_round_trip_def by blast
  then obtain h where h: "generate_password_hash lib ''pbkdf2:sha256'' salt (Some pw) = Inr h"
    by (cases "generate_password_hash lib ''pbkdf2:sha256'' salt (Some pw)") auto
  with c have v: "check_password_hash lib h (Some pw) = Inr True" by simp
  define u where "u = \<lparr>User_id = next_id (map User_id (users db)), User_username = n,
      User_email = e, User_password = h, User_zip_code = frm ''zip_code''\<rparr>"
  define db' where "db' = db\<lparr>users := users db @ [u]\<rparr>"
  from fresh have nf: "find (\<lambda>u. User_username u = n) (users db) = None"
    by (simp add: User_query_filter_by_username_def)
  then have nmem: "n \<notin> set (map User_username (users db))"
    by (auto simp: find_None_iff)
  have reg: "register lib salt db POST frm = Inr (db', [], Redirect ''login'')"
    using n e pw fresh efresh nmem h
    by (simp add: register_def session_add_user_def u_def db'_def)
  have look: "User_query_filter_by_username db' (Some n) = Some u"
    using nf by (simp add: User_query_filter_by_username_def db'_def find_append_miss u_def)
  have "login lib db' POST frm' = Inr (Some u, [], Redirect ''index'')"
    if "frm' ''username'' = Some n \<and> frm' ''password'' = Some pw" for frm'
    using that look v by (simp add: login_def u_def)
  with h reg show ?thesis unfolding u_def db'_def by blast
qed

lemma login_failure_generic:
  "(User_query_filter_by_username db (frm ''username'') = None
     \<longrightarrow> login lib db POST frm = Inr (None, [''Invalid username or password''], Render ''login.html'' NoContext))
   \<and> (User_query_filter_by_username db (frm ''username'') = Some u
       \<and> check_password_hash lib (User_password u) (frm ''password'') = Inr False
     \<longrightarrow> login lib db POST frm = Inr (None, [''Invalid username or password''], Render ''login.html'' NoContext))"
  by (simp add: login_def)

text \<open>
  \<open>login\<close> has no handler around the verification: an exception raised by
  \<open>check_password_hash\<close> leaves the handler as it is.
\<close>

lemma login_propagates_verification_error:
  "User_query_filter_by_username db (frm ''username'') = Some u \<Longrightarrow>
   check_password_hash lib (User_password u) (frm ''password'') = Inl e \<Longrightarrow>
   login lib db POST frm = Inl e"
  by (simp add: login_def)

text \<open>
  Attempts that are turned down without an exception, for either cause, all have
  the same outcome.
\<close>

lemma login_turned_down_outcome:
  assumes "login_turned_down lib db frm"
  shows "login lib db POST frm
       = Inr (None, [''Invalid username or password''], Render ''login.html'' NoContext)"
  using assms login_failure_generic[of db frm lib]
  by (auto simp: login_turned_down_def split: option.splits)

lemma handle_taken_after_answer:
  assumes first: "register lib salt1 db POST frm1 = Inr (db1, msgs1, r1)"
    and same: "frm2 ''username'' = frm1 ''username''"
  shows "register lib salt2 db1 POST frm2 = Inr (db1, [''Username already exists''], Redirect ''register'')"
proof (cases "User_query_filter_by_username db (frm1 ''username'')")
  case (Some u)
  with first have "db1 = db" by (simp add: register_def)
  with Some same show ?thesis by (simp add: register_def)
next
  case None
  with first obtain h n e where
    n: "frm1 ''username'' = Some n" and
    db1: "db1 = db\<lparr>users := users db @ [\<lparr>User_id = next_id (map User_id (users db)),
        User_username = n, User_email = e, User_password = h, User_zip_code = frm1 ''zip_code''\<rparr>]\<rparr>"
    by (auto simp: register_def session_add_user_def split: sum.splits option.splits if_splits)
  from None n have "find (\<lambda>u. User_username u = n) (users db) = None"
    by (simp add: User_query_filter_by_username_def)
  then have "\<exists>u. User_query_filter_by_username db1 (Some n) = Some u"
    by (simp add: User_query_filter_by_username_def db1 find_append_miss)
  with same n show ?thesis by (auto simp: register_def)
qed

lemma missing_zip_not_lookup_error: "missing_zip_message \<noteq> lookup_error_message e"
  by (simp add: missing_zip_message_def lookup_error_message_def)

section \<open>Facts about binary64 rounding\<close>

lemma pow2_powi: "pow2 e = 2 powi e"
  by (simp add: pow2_def power_int_def inverse_eq_divide power_one_over)

lemma pow2_pos: "0 < pow2 e"
  by (simp add: pow2_powi)

lemma pow2_less: "a < b \<Longrightarrow> pow2 a < pow2 b"
  by (simp add: pow2_powi power_int_strict_increasing)

lemma pow2_le: "a \<le> b \<Longrightarrow> pow2 a \<le> pow2 b"
  by (simp add: pow2_powi power_int_increasing)

lemma pow2_less_cancel: "pow2 a < pow2 b \<Longrightarrow> a < b"
  using pow2_le[of b a] by (cases "a < b") auto

lemma pow2_add: "pow2 (a + b) = pow2 a * pow2 b"
  by (simp add: pow2_powi power_int_add)

lemma pow2_diff_nat: "pow2 (int a - int b) = 2 ^ a / 2 ^ b"
  by (simp add: pow2_powi power_int_diff)

lemma floor_log2_bounds:
  assumes "0 < x"
  shows "pow2 (floor_log2 x) \<le> x" and "x < pow2 (floor_log2 x + 1)"
proof -
  obtain p q where pq: "quotient_of x = (p, q)" by (cases "quotient_of x")
  then have q: "0 < q" by (rule quotient_of_denom_pos)
  from pq have x: "x = of_int p / of_int q" by (rule quotient_of_div)
  with assms q have p: "0 < p" by (simp add: zero_less_divide_iff)
  define bp where "bp = nat (bitlen p)"
  define bq where "bq = nat (bitlen q)"
  have bp0: "0 < bitlen p" and bq0: "0 < bitlen q"
    using p q bitlen_eq_zero_iff[of p] bitlen_eq_zero_iff[of q] bitlen_nonneg[of p] bitlen_nonneg[of q]
    by force+
  have bpi: "bitlen p = int bp" and bqi: "bitlen q = int bq"
    using bp0 bq0 by (simp_all add: bp_def bq_def)
  have bp1: "1 \<le> bp" and bq1: "1 \<le> bq" using bp0 bq0 bpi bqi by linarith+
  from bitlen_bounds[OF p] have pb: "2 ^ (bp - 1) \<le> p" "p < 2 ^ bp"
    using bp1 by (simp_all add: bp_def nat_diff_distrib)
  from bitlen_bounds[OF q] have qb: "2 ^ (bq - 1) \<le> q" "q < 2 ^ bq"
    using bq1 by (simp_all add: bq_def nat_diff_distrib)
  let ?d = "int bp - int bq"
  have fl: "floor_log2 x = (if pow2 ?d \<le> x then ?d else ?d - 1)"
    by (simp add: floor_log2_def pq bpi bqi Let_def)
  have pr: "(2::rat) ^ (bp - 1) \<le> of_int p" "(of_int p :: rat) < 2 ^ bp"
    using pb by (metis of_int_le_iff of_int_numeral of_int_power, metis of_int_less_iff of_int_numeral of_int_power)
  have qr: "(2::rat) ^ (bq - 1) \<le> of_int q" "(of_int q :: rat) < 2 ^ bq"
    using qb by (metis of_int_le_iff of_int_numeral of_int_power, metis of_int_less_iff of_int_numeral of_int_power)
  have qpos: "(0::rat) < of_int q" using q by simp
  have up: "x < pow2 (?d + 1)"
  proof -
    have "pow2 (?d + 1) = 2 ^ bp / 2 ^ (bq - 1)"
      using pow2_diff_nat[of bp "bq - 1"] bq1 by (simp add: of_nat_diff algebra_simps)
    moreover have "of_int p / of_int q < (2::rat) ^ bp / 2 ^ (bq - 1)"
      using pr qr qpos p by (intro frac_less) auto
    ultimately show ?thesis using x by simp
  qed
  have lo: "pow2 (?d - 1) \<le> x"
  proof -
    have "pow2 (?d - 1) = 2 ^ (bp - 1) / 2 ^ bq"
      using pow2_diff_nat[of "bp - 1" bq] bp1 by (simp add: of_nat_diff algebra_simps)
    moreover have "(2::rat) ^ (bp - 1) / 2 ^ bq \<le> of_int p / of_int q"
      using pr qr qpos p by (intro frac_le) auto
    ultimately show ?thesis using x by simp
  qed
  show "pow2 (floor_log2 x) \<le> x" using fl lo by auto
  show "x < pow2 (floor_log2 x + 1)" using fl up by (auto simp: not_le)
qed

lemma floor_log2_eqI:
  assumes "pow2 e \<le> x" and "x < pow2 (e + 1)"
  shows "floor_log2 x = e"
proof -
  have x: "0 < x" using assms(1) pow2_pos[of e] by linarith
  from floor_log2_bounds[OF x] assms
  have "pow2 e < pow2 (floor_log2 x + 1)" "pow2 (floor_log2 x) < pow2 (e + 1)" by linarith+
  then have "e < floor_log2 x + 1" "floor_log2 x < e + 1" by (auto dest: pow2_less_cancel)
  then show ?thesis by linarith
qed

lemma round_half_even_eqI:
  assumes "\<bar>y - of_int k\<bar> < 1 / 2"
  shows "round_half_even y = k"
proof -
  show ?thesis
  proof (cases "of_int k \<le> y")
    case True
    then have f: "\<lfloor>y\<rfloor> = k" using assms by (intro floor_unique) linarith+
    have "y - of_int k < 1 / 2" using assms by linarith
    then show ?thesis using f by (simp add: round_half_even_def Let_def)
  next
    case False
    then have f: "\<lfloor>y\<rfloor> = k - 1" using assms by (intro floor_unique) linarith+
    have "1 / 2 < y - (of_int k - 1)" using assms by linarith
    then show ?thesis using f by (simp add: round_half_even_def Let_def)
  qed
qed

lemma round_half_even_error: "\<bar>of_int (round_half_even y) - y\<bar> \<le> 1 / 2"
proof -
  have "of_int \<lfloor>y\<rfloor> \<le> y" "y < of_int \<lfloor>y\<rfloor> + 1" by linarith+
  then show ?thesis
    by (auto simp: round_half_even_def Let_def abs_le_iff)
qed


lemma round_binary64_error:
  assumes "pow2 (- 1022) \<le> \<bar>x\<bar>"
  shows "\<bar>round_binary64 x - x\<bar> \<le> \<bar>x\<bar> / 2 ^ 53"
proof -
  have x0: "0 < \<bar>x\<bar>" using assms pow2_pos[of "- 1022"] by linarith
  then have xn: "x \<noteq> 0" by auto
  define e where "e = floor_log2 \<bar>x\<bar>"
  from floor_log2_bounds[OF x0] have lo: "pow2 e \<le> \<bar>x\<bar>" and up: "\<bar>x\<bar> < pow2 (e + 1)"
    by (simp_all add: e_def)
  from assms up have "pow2 (- 1022) < pow2 (e + 1)" by linarith
  then have "- 1022 < e + 1" by (rule pow2_less_cancel)
  then have m: "max e (- 1022) = e" by simp
  define ulp where "ulp = pow2 (e - 52)"
  have ulp0: "0 < ulp" by (simp add: ulp_def pow2_pos)
  have rb: "round_binary64 x = of_int (round_half_even (x / ulp)) * ulp"
    using xn m by (simp add: round_binary64_def Let_def e_def[symmetric] ulp_def)
  have "\<bar>of_int (round_half_even (x / ulp)) - x / ulp\<bar> \<le> 1 / 2"
    by (rule round_half_even_error)
  then have "\<bar>of_int (round_half_even (x / ulp)) - x / ulp\<bar> * ulp \<le> 1 / 2 * ulp"
    using ulp0 by (intro mult_right_mono) auto
  moreover have "\<bar>of_int (round_half_even (x / ulp)) - x / ulp\<bar> * ulp
      = \<bar>of_int (round_half_even (x / ulp)) * ulp - x\<bar>"
  proof -
    have "(of_int (round_half_even (x / ulp)) - x / ulp) * ulp
        = of_int (round_half_even (x / ulp)) * ulp - x"
      using ulp0 by (simp add: left_diff_distrib)
    then have "\<bar>of_int (round_half_even (x / ulp)) * ulp - x\<bar>
        = \<bar>of_int (round_half_even (x / ulp)) - x / ulp\<bar> * \<bar>ulp\<bar>"
      by (metis abs_mult)
    then show ?thesis using ulp0 by simp
  qed
  ultimately have err: "\<bar>round_binary64 x - x\<bar> \<le> ulp / 2" by (simp add: rb)
  have "pow2 e = pow2 (e - 52) * pow2 52" using pow2_add[of "e - 52" 52] by simp
  moreover have "pow2 52 = 2 ^ 52" by (simp add: pow2_def)
  ultimately have "ulp / 2 = pow2 e / 2 ^ 53" by (simp add: ulp_def)
  also have "\<dots> \<le> \<bar>x\<bar> / 2 ^ 53" using lo by (simp add: divide_right_mono)
  finally show ?thesis using err by linarith
qed

lemma round_binary64_eqI:
  assumes "pow2 e \<le> \<bar>x\<bar>" and "\<bar>x\<bar> < pow2 (e + 1)" and "- 1022 \<le> e"
    and "\<bar>x / pow2 (e - 52) - of_int k\<bar> < 1 / 2"
  shows "round_binary64 x = of_int k * pow2 (e - 52)"
proof -
  have "0 < \<bar>x\<bar>" using assms(1) pow2_pos[of e] by linarith
  then have xn: "x \<noteq> 0" by auto
  have e: "floor_log2 \<bar>x\<bar> = e" using assms(1,2) by (rule floor_log2_eqI)
  have "round_half_even (x / pow2 (e - 52)) = k" using assms(4) by (rule round_half_even_eqI)
  then show ?thesis using xn e assms(3) by (simp add: round_binary64_def Let_def max_def)
qed

lemma round_binary64_0: "round_binary64 0 = 0"
  by (simp add: round_binary64_def)

lemma third_near_int:
  "\<bar>of_int m / 3 - (of_int ((m + 1) div 3) :: rat)\<bar> \<le> 1 / 3"
proof -
  define k where "k = (m + 1) div 3"
  have "m = 3 * k - 1 \<or> m = 3 * k \<or> m = 3 * k + 1"
    unfolding k_def by presburger
  then have "\<bar>of_int m / 3 - (of_int k :: rat)\<bar> \<le> 1 / 3"
    by (elim disjE) (simp_all add: field_simps)
  then show ?thesis by (simp only: k_def)
qed


lemma pow2_min_le: "pow2 (- 1022) \<le> 1 / 10"
  by (simp add: pow2_def)

lemma score_three_bounded:
  fixes s :: int
  assumes len: "length answers = 3" and sum: "sum_list answers = s" and bound: "\<bar>s\<bar> \<le> 10 ^ 12"
  shows "calculate_civic_engagement_score answers
       = Inr (float_of_tenths (round_half_even (100 * of_int s / 3 * 10)))"
proof (cases "s = 0")
  case True
  then show ?thesis using len sum
    by (simp add: calculate_civic_engagement_score_def int_truediv_def round_binary64_0
        float_of_exact_def round_half_even_def float_of_tenths_def)
next
  case False
  define x1 :: rat where "x1 = of_int s / 3"
  define a where "a = round_binary64 x1"
  define b where "b = round_binary64 (a * 100)"
  define k where "k = (1000 * s + 1) div 3"
  define r where "r = round_binary64 (of_int k / 10)"
  define t where "t = \<bar>x1\<bar>"
  define ta where "ta = \<bar>a\<bar>"
  define da where "da = \<bar>a - x1\<bar>"
  define tb where "tb = \<bar>b\<bar>"
  define db where "db = \<bar>b - a * 100\<bar>"
  define dz where "dz = \<bar>b - 100 * x1\<bar>"
  define tk where "tk = \<bar>of_int k :: rat\<bar>"
  define dk where "dk = \<bar>1000 * x1 - of_int k\<bar>"
  have tri: "t \<le> ta + da" "ta \<le> t + da" "tb \<le> 100 * ta + db" "dz \<le> db + 100 * da"
    "tk \<le> 1000 * t + dk"
    unfolding t_def ta_def da_def tb_def db_def dz_def tk_def dk_def
    by (simp_all add: abs_if split: if_splits)
  have s1: "1 \<le> \<bar>s\<bar>" using False by linarith
  then have "(1::rat) \<le> \<bar>of_int s\<bar>" by (metis of_int_1 of_int_abs of_int_le_iff)
  then have tlo: "1 / 3 \<le> t" by (simp add: x1_def t_def)
  have "\<bar>of_int s :: rat\<bar> \<le> 10 ^ 12" using bound
    by (metis of_int_abs of_int_le_iff of_int_numeral of_int_power)
  then have thi: "t \<le> 1000000000000 / 3" by (simp add: x1_def t_def)
  have "pow2 (- 1022) \<le> \<bar>x1\<bar>" using pow2_min_le tlo unfolding t_def by linarith
  from round_binary64_error[OF this] have ea: "da \<le> t / 9007199254740992"
    by (simp add: a_def da_def t_def)
  have alo: "1 / 4 \<le> ta" using ea tlo tri by linarith
  have ahi: "ta \<le> 1000000000000" using ea thi tri by linarith
  have div: "int_truediv s 3 = Inr (Finite a)"
    using ahi by (simp add: int_truediv_def Let_def a_def x1_def ta_def)
  have a100: "\<bar>a * 100\<bar> = ta * 100" by (simp add: abs_mult ta_def)
  have "pow2 (- 1022) \<le> \<bar>a * 100\<bar>" using pow2_min_le alo a100 by linarith
  from round_binary64_error[OF this] have eb: "db \<le> ta * 100 / 9007199254740992"
    by (simp add: b_def a100 db_def)
  have bhi: "tb \<le> 1000000000000000" using eb ahi tri by linarith
  have mul: "float_mul (Finite a) (Finite 100) = Finite b"
    using bhi by (simp add: float_of_exact_def Let_def b_def tb_def abs_le_iff)
  have close: "dz < 1 / 60" using ea eb thi ahi tri by linarith
  have z: "1000 * x1 = of_int (1000 * s) / 3" by (simp add: x1_def)
  have near: "dk \<le> 1 / 3"
    unfolding dk_def z k_def by (rule third_near_int)
  have "\<bar>b * 10 - of_int k\<bar> \<le> 10 * dz + dk" unfolding dz_def dk_def
    by (simp add: abs_if split: if_splits)
  then have "\<bar>b * 10 - of_int k\<bar> < 1 / 2" using close near by linarith
  then have rb10: "round_half_even (b * 10) = k" by (rule round_half_even_eqI)
  have "100 * of_int s / 3 * 10 = 1000 * x1" by (simp add: x1_def)
  then have "\<bar>100 * of_int s / 3 * 10 - (of_int k :: rat)\<bar> < 1 / 2"
    using near unfolding dk_def by linarith
  then have spec: "round_half_even (100 * of_int s / 3 * 10) = k" by (rule round_half_even_eqI)
  have khi: "tk \<le> 1000000000000000" using near thi tri by linarith
  have fin: "\<bar>r\<bar> \<le> 2000000000000000"
  proof (cases "k = 0")
    case True
    then show ?thesis by (simp add: round_binary64_0 r_def)
  next
    case False
    then have "1 \<le> \<bar>k\<bar>" by linarith
    then have "(1::rat) \<le> \<bar>of_int k\<bar>" by (metis of_int_1 of_int_abs of_int_le_iff)
    then have "pow2 (- 1022) \<le> \<bar>of_int k / 10\<bar>" using pow2_min_le by simp
    from round_binary64_error[OF this] have "\<bar>r - of_int k / 10\<bar> \<le> tk / 10 / 9007199254740992"
      by (simp add: r_def tk_def)
    moreover have "\<bar>r\<bar> \<le> \<bar>r - of_int k / 10\<bar> + tk / 10" unfolding tk_def
      by (simp add: abs_if split: if_splits)
    ultimately show ?thesis using khi by linarith
  qed
  have "(2000000000000000::rat) < 2 ^ 1024" by simp
  with fin have "\<not> 2 ^ 1024 \<le> \<bar>r\<bar>" by linarith
  then have rnd: "py_round (Finite b) 1 = Inr (float_of_tenths k)"
    by (simp add: rb10 float_of_tenths_def Let_def r_def)
  show ?thesis
    using len sum div mul rnd spec
    by (simp add: calculate_civic_engagement_score_def)
qed


lemma round_half_even_2000_3: "round_half_even (100 * of_int 2 / 3 * 10) = 667"
  by (rule round_half_even_eqI) simp

lemma round_half_even_1000: "round_half_even (100 * of_int 3 / 3 * 10) = 1000"
  by (rule round_half_even_eqI) simp

lemma float_of_tenths_1000: "float_of_tenths 1000 = Finite 100"
  using round_binary64_eqI[of 6 100 "100 * 2 ^ 46"]
  by (simp add: float_of_tenths_def pow2_def)

lemma float_of_tenths_667: "float_of_tenths 667 = Finite (4693595236650189 / 70368744177664)"
  using round_binary64_eqI[of 6 "667 / 10" 4693595236650189]
  by (simp add: float_of_tenths_def pow2_def)

lemma float_of_tenths_0: "float_of_tenths 0 = Finite 0"
  by (simp add: float_of_tenths_def round_binary64_0)

lemma score_all_right: "calculate_civic_engagement_score [1, 1, 1] = Inr (Finite 100)"
  using score_three_bounded[of "[1, 1, 1]" 3] round_half_even_1000 float_of_tenths_1000
  by simp

lemma score_all_wrong: "calculate_civic_engagement_score [0, 0, 0] = Inr (Finite 0)"
  using score_three_bounded[of "[0, 0, 0]" 0] float_of_tenths_0
  by (simp add: round_half_even_def)

lemma score_two_of_three: "calculate_civic_engagement_score [1, 0, 1] = Inr (float_of_tenths 667)"
  using score_three_bounded[of "[1, 0, 1]" 2] round_half_even_2000_3
  by simp

lemma truediv_overflow: "int_truediv (10 ^ 309) 3 = Inl OverflowError"
proof -
  define x :: rat where "x = of_int (10 ^ 309) / of_int 3"
  have big: "2 ^ 1024 \<le> x - x / 2 ^ 53" by (simp add: x_def)
  have x0: "0 \<le> x" by (simp add: x_def)
  have "pow2 (- 1022) \<le> \<bar>x\<bar>" using pow2_min_le by (simp add: x_def)
  from round_binary64_error[OF this] have "\<bar>round_binary64 x - x\<bar> \<le> x / 2 ^ 53"
    using x0 by simp
  moreover have "x - round_binary64 x \<le> \<bar>round_binary64 x - x\<bar>" by simp
  ultimately have "x - x / 2 ^ 53 \<le> round_binary64 x" by linarith
  with big have "2 ^ 1024 \<le> \<bar>round_binary64 x\<bar>" by linarith
  then show ?thesis unfolding int_truediv_def x_def[symmetric] by (simp add: Let_def)
qed

lemma score_overflow: "calculate_civic_engagement_score [10 ^ 309, 0, 0] = Inl OverflowError"
  using truediv_overflow by (simp add: calculate_civic_engagement_score_def)

lemma round_to_tenths_error: "\<bar>of_int (round_half_even (x * 10)) / 10 - x\<bar> \<le> 1 / 20"
  using round_half_even_error[of "x * 10"] by (simp add: abs_if field_simps split: if_splits)

lemma round_half_even_2000_3_numeral: "round_half_even (2000 / 3) = 667"
  by (rule round_half_even_eqI) simp

lemma civic_quiz_answers:
  assumes "form_answer py_int frm ''answer1'' = Inr a1"
    and "form_answer py_int frm ''answer2'' = Inr a2"
    and "form_answer py_int frm ''answer3'' = Inr a3"
  shows "civic_quiz py_int POST frm =
     (case calculate_civic_engagement_score [a1, a2, a3] of
        Inl e \<Rightarrow> Inl e
      | Inr score \<Rightarrow> Inr (Render ''quiz_result.html'' (ScoreContext score)))"
  using assms by (simp add: civic_quiz_def)

section \<open>Liking a post\<close>

text \<open>
  Claim C6, as stated: for every post id, \<open>like_post\<close> raises the counter by one
  when the post exists and is a silent no-op, without an error, when it does not.
  A post id of \<open>2^63\<close>, which the route accepts, does not fit a 64-bit integer:
  no post has it, and the lookup raises \<open>OverflowError\<close>. Likewise a counter that
  already holds the largest 64-bit integer cannot be raised: the commit raises.
\<close>

theorem like_post_overflow_counterexample:
  "post_with_id example_db 9223372036854775808 = None
   \<and> like_post example_db 9223372036854775808 = Inl OverflowError
   \<and> post_with_id (example_db\<lparr>posts := [full_post]\<rparr>) 2 = Some full_post
   \<and> like_post (example_db\<lparr>posts := [full_post]\<rparr>) 2 = Inl OverflowError"
  by (simp add: like_post_def Post_query_get_def post_with_id_def sqlite_integer_def
      example_db_def example_post_def full_post_def)

text \<open>
  Claim C6, amended. For every post id that fits a 64-bit integer: when a post
  with that id exists and its counter plus one still fits, \<open>like_post\<close> stores
  that post with its like counter raised by exactly one and leaves every other
  post, the accounts and the comments as they were; when no post has that id, the
  store is returned unchanged and the response is the same redirect, with no
  error and no flashed message. In every store reached from the empty one by any
  sequence of requests all like counters are non-negative, and across any
  sequence of requests the counter of an existing post never decreases.
\<close>

theorem like_post_increments_or_noop:
  "(\<forall>db pid p. sqlite_integer pid \<and> post_with_id db pid = Some p
        \<and> sqlite_integer (Post_likes p + 1) \<longrightarrow>
       (\<exists>db'. like_post db pid = Inr (db', Redirect ''index'')
           \<and> post_with_id db' pid = Some (p\<lparr>Post_likes := Post_likes p + 1\<rparr>)
           \<and> (\<forall>j. j \<noteq> pid \<longrightarrow> post_with_id db' j = post_with_id db j)
           \<and> users db' = users db
           \<and> comments db' = comments db))
   \<and> (\<forall>db pid. sqlite_integer pid \<and> post_with_id db pid = None \<longrightarrow>
         like_post db pid = Inr (db, Redirect ''index''))
   \<and> (\<forall>lib acts. likes_nonneg (run lib empty_db acts))
   \<and> (\<forall>lib db acts k p. post_with_id db k = Some p \<longrightarrow>
        (\<exists>p'. post_with_id (run lib db acts) k = Some p' \<and> Post_likes p \<le> Post_likes p'))"
proof (intro conjI allI impI)
  fix lib acts
  show "likes_nonneg (run lib empty_db acts)"
    by (rule run_nonneg[OF likes_nonneg_empty])
next
  fix db pid p
  assume "sqlite_integer pid \<and> post_with_id db pid = Some p \<and> sqlite_integer (Post_likes p + 1)"
  then show "\<exists>db'. like_post db pid = Inr (db', Redirect ''index'')
           \<and> post_with_id db' pid = Some (p\<lparr>Post_likes := Post_likes p + 1\<rparr>)
           \<and> (\<forall>j. j \<noteq> pid \<longrightarrow> post_with_id db' j = post_with_id db j)
           \<and> users db' = users db
           \<and> comments db' = comments db"
    using like_post_hit by blast
qed (simp_all add: like_post_miss run_mono)

theorem like_post_increments_or_noop_witness:
  "sqlite_integer 1 \<and> post_with_id example_db 1 = Some example_post
   \<and> sqlite_integer (Post_likes example_post + 1)
   \<and> like_post example_db 1
       = Inr (example_db\<lparr>posts := [example_post\<lparr>Post_likes := 1\<rparr>]\<rparr>, Redirect ''index'')
   \<and> sqlite_integer 2 \<and> post_with_id example_db 2 = None
   \<and> like_post example_db 2 = Inr (example_db, Redirect ''index'')
   \<and> likes_nonneg (run example_security empty_db
        [CreatePost example_account [''content'' \<mapsto> ''hi''], LikePost 1])
   \<and> (\<exists>p'. post_with_id (run example_security example_db [LikePost 1, LikePost 1]) 1 = Some p'
          \<and> 0 \<le> Post_likes p')"
proof -
  have r1: "sqlite_integer 1" and r2: "sqlite_integer 2" by (simp_all add: sqlite_integer_def)
  have hit: "post_with_id example_db 1 = Some example_post"
    by (simp add: post_with_id_def example_db_def example_post_def)
  have miss: "post_with_id example_db 2 = None"
    by (simp add: post_with_id_def example_db_def example_post_def)
  have fits: "sqlite_integer (Post_likes example_post + 1)"
    by (simp add: sqlite_integer_def example_post_def)
  note T = like_post_increments_or_noop
  from T r1 hit fits have "\<exists>db'. like_post example_db 1 = Inr (db', Redirect ''index'')
      \<and> post_with_id db' 1 = Some (example_post\<lparr>Post_likes := Post_likes example_post + 1\<rparr>)"
    by blast
  then have a: "like_post example_db 1
       = Inr (example_db\<lparr>posts := [example_post\<lparr>Post_likes := 1\<rparr>]\<rparr>, Redirect ''index'')"
    by (simp add: like_post_def Post_query_get_def post_with_id_def sqlite_integer_def
        example_db_def example_post_def)
  from T r2 miss have b: "like_post example_db 2 = Inr (example_db, Redirect ''index'')"
    by blast
  from T have c: "likes_nonneg (run example_security empty_db
      [CreatePost example_account [''content'' \<mapsto> ''hi''], LikePost 1])"
    by blast
  from T hit have d: "\<exists>p'. post_with_id (run example_security example_db [LikePost 1, LikePost 1]) 1
      = Some p' \<and> Post_likes example_post \<le> Post_likes p'"
    by blast
  show ?thesis using r1 r2 hit miss fits a b c d by (simp add: example_post_def)
qed

section \<open>Listing posts\<close>

text \<open>
  Claim C5. \<open>index\<close> renders all stored posts, each once, ordered by descending
  post identifier; after three posts are created in a store without posts, it
  lists the third, the second and the first, in that order.
\<close>

theorem index_newest_first:
  "(\<forall>db. \<exists>ps. index db = Render ''index.html'' (PostsContext ps)
          \<and> mset ps = mset (posts db)
          \<and> sorted_wrt (\<lambda>p q. Post_id q \<le> Post_id p) ps)
   \<and> (\<forall>db u1 u2 u3 f1 f2 f3 db1 db2 db3 r1 r2 r3.
         posts db = [] \<and>
         create_post u1 db f1 = Inr (db1, r1) \<and>
         create_post u2 db1 f2 = Inr (db2, r2) \<and>
         create_post u3 db2 f3 = Inr (db3, r3) \<longrightarrow>
         (\<exists>P1 P2 P3. posts db1 = [P1] \<and> posts db2 = [P1, P2] \<and> posts db3 = [P1, P2, P3]
            \<and> index db3 = Render ''index.html'' (PostsContext [P3, P2, P1])))"
proof (intro conjI allI impI)
  fix db
  show "\<exists>ps. index db = Render ''index.html'' (PostsContext ps)
          \<and> mset ps = mset (posts db)
          \<and> sorted_wrt (\<lambda>p q. Post_id q \<le> Post_id p) ps"
    by (rule index_sorted_all)
next
  fix db u1 u2 u3 f1 f2 f3 db1 db2 db3 r1 r2 r3
  assume "posts db = [] \<and>
         create_post u1 db f1 = Inr (db1, r1) \<and>
         create_post u2 db1 f2 = Inr (db2, r2) \<and>
         create_post u3 db2 f3 = Inr (db3, r3)"
  then show "\<exists>P1 P2 P3. posts db1 = [P1] \<and> posts db2 = [P1, P2] \<and> posts db3 = [P1, P2, P3]
            \<and> index db3 = Render ''index.html'' (PostsContext [P3, P2, P1])"
    using three_posts by blast
qed

theorem index_newest_first_witness:
  "posts empty_db = []
   \<and> create_post example_account empty_db [''content'' \<mapsto> ''one'']
       = Inr (empty_db\<lparr>posts := [post_one]\<rparr>, Redirect ''index'')
   \<and> create_post example_account (empty_db\<lparr>posts := [post_one]\<rparr>) [''content'' \<mapsto> ''two'']
       = Inr (empty_db\<lparr>posts := [post_one, post_two]\<rparr>, Redirect ''index'')
   \<and> create_post example_account (empty_db\<lparr>posts := [post_one, post_two]\<rparr>) [''content'' \<mapsto> ''three'']
       = Inr (empty_db\<lparr>posts := [post_one, post_two, post_three]\<rparr>, Redirect ''index'')
   \<and> index (empty_db\<lparr>posts := [post_one, post_two, post_three]\<rparr>)
       = Render ''index.html'' (PostsContext [post_three, post_two, post_one])"
proof -
  have e: "posts empty_db = []" by (simp add: empty_db_def)
  have c1: "create_post example_account empty_db [''content'' \<mapsto> ''one'']
       = Inr (empty_db\<lparr>posts := [post_one]\<rparr>, Redirect ''index'')"
    by (simp add: create_post_def empty_db_def post_one_def example_account_def)
  have c2: "create_post example_account (empty_db\<lparr>posts := [post_one]\<rparr>) [''content'' \<mapsto> ''two'']
       = Inr (empty_db\<lparr>posts := [post_one, post_two]\<rparr>, Redirect ''index'')"
    by (simp add: create_post_def empty_db_def post_one_def post_two_def example_account_def)
  have c3: "create_post example_account (empty_db\<lparr>posts := [post_one, post_two]\<rparr>)
       [''content'' \<mapsto> ''three'']
       = Inr (empty_db\<lparr>posts := [post_one, post_two, post_three]\<rparr>, Redirect ''index'')"
    by (simp add: create_post_def empty_db_def post_one_def post_two_def post_three_def
        example_account_def)
  from index_newest_first e c1 c2 c3
  have "\<exists>P1 P2 P3. posts (empty_db\<lparr>posts := [post_one]\<rparr>) = [P1]
      \<and> posts (empty_db\<lparr>posts := [post_one, post_two]\<rparr>) = [P1, P2]
      \<and> posts (empty_db\<lparr>posts := [post_one, post_two, post_three]\<rparr>) = [P1, P2, P3]
      \<and> index (empty_db\<lparr>posts := [post_one, post_two, post_three]\<rparr>)
           = Render ''index.html'' (PostsContext [P3, P2, P1])"
    by blast
  then have "index (empty_db\<lparr>posts := [post_one, post_two, post_three]\<rparr>)
       = Render ''index.html'' (PostsContext [post_three, post_two, post_one])"
    by auto
  with e c1 c2 c3 show ?thesis by blast
qed

section \<open>Registration followed by login\<close>

text \<open>
  Claim C1, as stated: every registration whose handle is not in the account
  store succeeds. It fails on a registration with a fresh handle and a contact
  address that is already stored: the commit raises \<open>IntegrityError\<close>.
\<close>

theorem register_fresh_handle_counterexample:
  "hash_round_trip example_security
   \<and> User_query_filter_by_username example_db (bob_form_taken_email ''username'') = None
   \<and> register example_security ''na'' example_db POST bob_form_taken_email = Inl IntegrityError"
  using example_security_round_trip
  by (simp add: register_def session_add_user_def User_query_filter_by_username_def
      example_db_def example_account_def bob_form_taken_email_def example_security_def)

text \<open>
  Claim C1, amended. For every registration that supplies a handle, a contact
  address and a password, with neither the handle nor the contact address
  already in the account store, \<open>register\<close> succeeds: it appends the account with
  the generated hash as its password and redirects to the login page; and a
  following login with that handle and that password succeeds, signing in the
  new account. (The hashing library is assumed to verify the hashes it generates.)
\<close>

theorem register_then_login:
  assumes "hash_round_trip lib"
    and "frm ''username'' = Some n" and "frm ''email'' = Some e"
    and "frm ''password'' = Some pw"
    and "User_query_filter_by_username db (Some n) = None"
    and "e \<notin> set (map User_email (users db))"
  shows "\<exists>h u db'. generate_password_hash lib ''pbkdf2:sha256'' salt (Some pw) = Inr h
      \<and> u = \<lparr>User_id = next_id (map User_id (users db)), User_username = n, User_email = e,
              User_password = h, User_zip_code = frm ''zip_code''\<rparr>
      \<and> db' = db\<lparr>users := users db @ [u]\<rparr>
      \<and> register lib salt db POST frm = Inr (db', [], Redirect ''login'')
      \<and> (\<forall>frm'. frm' ''username'' = Some n \<and> frm' ''password'' = Some pw \<longrightarrow>
            login lib db' POST frm' = Inr (Some u, [], Redirect ''index''))"
  using assms by (rule fresh_registration_can_log_in)

theorem register_then_login_witness:
  "hash_round_trip example_security
   \<and> bob_form ''username'' = Some ''bob'' \<and> bob_form ''email'' = Some ''bob@example.org''
   \<and> bob_form ''password'' = Some ''builder''
   \<and> User_query_filter_by_username example_db (Some ''bob'') = None
   \<and> ''bob@example.org'' \<notin> set (map User_email (users example_db))
   \<and> register example_security ''na'' example_db POST bob_form
       = Inr (example_db\<lparr>users := [example_account, bob_account]\<rparr>, [], Redirect ''login'')
   \<and> login example_security (example_db\<lparr>users := [example_account, bob_account]\<rparr>) POST bob_form
       = Inr (Some bob_account, [], Redirect ''index'')"
proof -
  have h1: "bob_form ''username'' = Some ''bob''" by (simp add: bob_form_def)
  have h2: "bob_form ''email'' = Some ''bob@example.org''" by (simp add: bob_form_def)
  have h3: "bob_form ''password'' = Some ''builder''" by (simp add: bob_form_def)
  have h4: "User_query_filter_by_username example_db (Some ''bob'') = None"
    by (simp add: User_query_filter_by_username_def example_db_def example_account_def)
  have h5: "''bob@example.org'' \<notin> set (map User_email (users example_db))"
    by (simp add: example_db_def example_account_def)
  have z: "bob_form ''zip_code'' = Some ''10001''" by (simp add: bob_form_def)
  have g: "generate_password_hash example_security ''pbkdf2:sha256'' ''na'' (Some ''builder'')
      = Inr ''pbkdf2:sha256$na$builder''"
    by (simp add: example_security_def)
  have u: "\<lparr>User_id = next_id (map User_id (users example_db)), User_username = ''bob'',
      User_email = ''bob@example.org'', User_password = ''pbkdf2:sha256$na$builder'',
      User_zip_code = bob_form ''zip_code''\<rparr> = bob_account"
    by (simp add: z bob_account_def example_db_def example_account_def)
  have d: "example_db\<lparr>users := users example_db @ [bob_account]\<rparr>
      = example_db\<lparr>users := [example_account, bob_account]\<rparr>"
    by (simp add: example_db_def)
  from register_then_login[OF example_security_round_trip h1 h2 h3 h4 h5, of "''na''"] g u d
  have "register example_security ''na'' example_db POST bob_form
       = Inr (example_db\<lparr>users := [example_account, bob_account]\<rparr>, [], Redirect ''login'')
     \<and> login example_security (example_db\<lparr>users := [example_account, bob_account]\<rparr>) POST bob_form
       = Inr (Some bob_account, [], Redirect ''index'')"
    using h1 h3 by auto
  with example_security_round_trip h1 h2 h3 h4 h5 show ?thesis by blast
qed

section \<open>Failed logins\<close>

text \<open>
  Claim C3. Every failing login attempt is to have the same outcome, whether the
  handle is unknown or the password does not verify. \<open>login\<close> gives both causes
  one \<open>else\<close> branch, but it verifies only when the handle is known, and nothing
  catches what the verification raises. A request that carries a handle and no
  password field therefore tells the two apart: for an unknown handle it gets the
  generic message and the login page, for a stored handle \<open>None\<close> reaches
  \<open>check_password_hash\<close> and the exception leaves the handler.
\<close>

theorem login_missing_password_reveals_handle:
  "User_query_filter_by_username example_db (Some ''carol'') = None
   \<and> login example_security example_db POST [''username'' \<mapsto> ''carol'']
       = Inr (None, [''Invalid username or password''], Render ''login.html'' NoContext)
   \<and> User_query_filter_by_username example_db (Some ''alice'') = Some example_account
   \<and> login example_security example_db POST [''username'' \<mapsto> ''alice'']
       = Inl AttributeError"
  by (simp add: login_def User_query_filter_by_username_def example_db_def
      example_account_def example_security_def)

section \<open>Registering a handle twice\<close>

text \<open>
  Claim C4, as stated: of any two registrations submitted with the same handle
  the second fails. It does not when the first one raised: a first registration
  with a fresh handle and a contact address already stored ends in
  \<open>IntegrityError\<close> and stores nothing, and a second registration with the same
  handle and a fresh contact address is then accepted.
\<close>

theorem second_registration_counterexample:
  "bob_form ''username'' = bob_form_taken_email ''username''
   \<and> register example_security ''na'' example_db POST bob_form_taken_email = Inl IntegrityError
   \<and> step example_security example_db (Register ''na'' POST bob_form_taken_email) = example_db
   \<and> register example_security ''na'' example_db POST bob_form
       = Inr (example_db\<lparr>users := [example_account, bob_account]\<rparr>, [], Redirect ''login'')"
  by (simp add: register_def session_add_user_def User_query_filter_by_username_def
      example_db_def example_account_def bob_account_def bob_form_taken_email_def bob_form_def
      example_security_def)

text \<open>
  Claim C4, amended. Whenever a registration has been answered (accepted, or
  turned down as a duplicate), every later registration with the same handle is
  turned down: it flashes ``Username already exists'', redirects to the
  registration page and leaves the store as it is, whatever its contact address,
  password and postal code are.
\<close>

theorem second_registration_rejected:
  assumes "register lib salt1 db POST frm1 = Inr (db1, msgs1, r1)"
    and "frm2 ''username'' = frm1 ''username''"
  shows "register lib salt2 db1 POST frm2
       = Inr (db1, [''Username already exists''], Redirect ''register'')"
  using assms by (rule handle_taken_after_answer)

theorem second_registration_rejected_witness:
  "register example_security ''na'' example_db POST bob_form
       = Inr (example_db\<lparr>users := [example_account, bob_account]\<rparr>, [], Redirect ''login'')
   \<and> bob_form_taken_email ''username'' = bob_form ''username''
   \<and> bob_form_taken_email ''email'' \<noteq> bob_form ''email''
   \<and> register example_security ''pepper'' (example_db\<lparr>users := [example_account, bob_account]\<rparr>)
        POST bob_form_taken_email
       = Inr (example_db\<lparr>users := [example_account, bob_account]\<rparr>,
              [''Username already exists''], Redirect ''register'')"
proof -
  have r: "register example_security ''na'' example_db POST bob_form
       = Inr (example_db\<lparr>users := [example_account, bob_account]\<rparr>, [], Redirect ''login'')"
    by (simp add: register_def session_add_user_def User_query_filter_by_username_def
      example_db_def example_account_def bob_account_def bob_form_def example_security_def)
  have s: "bob_form_taken_email ''username'' = bob_form ''username''"
    by (simp add: bob_form_taken_email_def bob_form_def)
  have d: "bob_form_taken_email ''email'' \<noteq> bob_form ''email''"
    by (simp add: bob_form_taken_email_def bob_form_def)
  from second_registration_rejected[where ?frm2.0 = bob_form_taken_email and ?frm1.0 = bob_form
      and ?salt2.0 = "''pepper''", OF r s] r s d
  show ?thesis by blast
qed

section \<open>Representative lookup without a postal code\<close>

text \<open>
  Claim C7. When the calling account's postal code is absent or empty,
  \<open>representatives\<close> issues no HTTP request at all, flashes the missing-postal-code
  message and redirects to the index page; that message is different from every
  message reported for a failed lookup.
\<close>

theorem representatives_without_zip:
  assumes "User_zip_code current_user = None \<or> User_zip_code current_user = Some []"
  shows "representatives key requests_get current_user
           = ([], Inr ([missing_zip_message], Redirect ''index''))
       \<and> (\<forall>e. missing_zip_message \<noteq> lookup_error_message e)"
  using assms
  by (auto simp: representatives_def missing_zip_not_lookup_error)

theorem representatives_without_zip_witness:
  "User_zip_code no_zip_account = None
   \<and> User_zip_code empty_zip_account = Some []
   \<and> representatives ''K'' client_ok no_zip_account
        = ([], Inr ([''Please update your zip code in your profile.''], Redirect ''index''))
   \<and> representatives ''K'' client_ok empty_zip_account
        = ([], Inr ([''Please update your zip code in your profile.''], Redirect ''index''))"
proof -
  have a: "User_zip_code no_zip_account = None" by (simp add: no_zip_account_def)
  have b: "User_zip_code empty_zip_account = Some []" by (simp add: empty_zip_account_def)
  from representatives_without_zip[of no_zip_account "''K''" client_ok] a
  have c: "representatives ''K'' client_ok no_zip_account
        = ([], Inr ([''Please update your zip code in your profile.''], Redirect ''index''))"
    by (simp add: missing_zip_message_def)
  from representatives_without_zip[of empty_zip_account "''K''" client_ok] b
  have d: "representatives ''K'' client_ok empty_zip_account
        = ([], Inr ([''Please update your zip code in your profile.''], Redirect ''index''))"
    by (simp add: missing_zip_message_def)
  from a b c d show ?thesis by blast
qed

section \<open>Representative lookup when the external call fails\<close>



section \<open>Quiz score\<close>

text \<open>
  Claim C2, as stated: the scorer is the function that returns
  \<open>100 * sum(answers) / count(answers)\<close> rounded to one decimal place. The division
  is a float division: on the three integers \<open>10^309, 0, 0\<close> it raises
  \<open>OverflowError\<close> and no score is returned.
\<close>

theorem score_overflow_counterexample:
  "length [10 ^ 309, 0, 0 :: int] = 3
   \<and> calculate_civic_engagement_score [10 ^ 309, 0, 0] = Inl OverflowError"
  using score_overflow by simp

text \<open>
  Claim C2, amended. For every vector of three integer answers whose sum is at
  most \<open>10^12\<close> in absolute value, the scorer returns the float nearest to
  \<open>100 * sum(answers) / count(answers)\<close> rounded to one decimal place (the rounded
  value is within one twentieth of the exact one); in particular it returns
  \<open>100.0\<close> on \<open>[1,1,1]\<close>, \<open>0.0\<close> on \<open>[0,0,0]\<close> and \<open>66.7\<close> on \<open>[1,0,1]\<close>. The
  scorer reads nothing but its argument, so equal inputs give equal outputs.
\<close>

theorem score_rounded_percentage:
  "(\<forall>answers. length answers = 3 \<and> \<bar>sum_list answers\<bar> \<le> 10 ^ 12 \<longrightarrow>
      calculate_civic_engagement_score answers
        = Inr (float_of_tenths (round_half_even
            (100 * of_int (sum_list answers) / of_int (int (length answers)) * 10))))
   \<and> (\<forall>x. \<bar>of_int (round_half_even (x * 10)) / 10 - x\<bar> \<le> 1 / 20)
   \<and> calculate_civic_engagement_score [1, 1, 1] = Inr (Finite 100)
   \<and> calculate_civic_engagement_score [0, 0, 0] = Inr (Finite 0)
   \<and> calculate_civic_engagement_score [1, 0, 1] = Inr (float_of_tenths 667)"
proof (intro conjI allI impI)
  fix answers :: "int list"
  assume h: "length answers = 3 \<and> \<bar>sum_list answers\<bar> \<le> 10 ^ 12"
  then have "calculate_civic_engagement_score answers
      = Inr (float_of_tenths (round_half_even (100 * of_int (sum_list answers) / 3 * 10)))"
    by (intro score_three_bounded) simp_all
  with h show "calculate_civic_engagement_score answers
        = Inr (float_of_tenths (round_half_even
            (100 * of_int (sum_list answers) / of_int (int (length answers)) * 10)))"
    by simp
next
  fix x :: rat
  show "\<bar>of_int (round_half_even (x * 10)) / 10 - x\<bar> \<le> 1 / 20"
    by (rule round_to_tenths_error)
qed (simp_all add: score_all_right score_all_wrong score_two_of_three)

theorem score_rounded_percentage_witness:
  "length [1, 0, 1 :: int] = 3 \<and> \<bar>sum_list [1, 0, 1 :: int]\<bar> \<le> 10 ^ 12
   \<and> calculate_civic_engagement_score [1, 0, 1]
       = Inr (Finite (4693595236650189 / 70368744177664))"
proof -
  have h: "length [1, 0, 1 :: int] = 3 \<and> \<bar>sum_list [1, 0, 1 :: int]\<bar> \<le> 10 ^ 12" by simp
  from score_rounded_percentage have "length [1, 0, 1 :: int] = 3 \<and> \<bar>sum_list [1, 0, 1 :: int]\<bar> \<le> 10 ^ 12 \<longrightarrow>
      calculate_civic_engagement_score [1, 0, 1]
        = Inr (float_of_tenths (round_half_even
            (100 * of_int (sum_list [1, 0, 1 :: int]) / of_int (int (length [1, 0, 1 :: int])) * 10)))"
    by blast
  with h have "calculate_civic_engagement_score [1, 0, 1]
      = Inr (float_of_tenths (round_half_even (100 * of_int 2 / 3 * 10)))"
    by simp
  then show ?thesis using h by (simp add: round_half_even_2000_3_numeral float_of_tenths_667)
qed

section \<open>Quiz submissions with missing answers\<close>

text \<open>
  Claim C10. In a quiz submission an answer field that is absent from the form
  counts as the integer 0: the three values handed to the scorer are those of
  \<open>form_answer\<close>, which is 0 for an absent field; a submission without any of the
  three fields is answered with the result page showing the score \<open>0.0\<close>.
\<close>

theorem quiz_absent_answers_are_zero:
  "(\<forall>py_int frm name. frm name = None \<longrightarrow> form_answer py_int frm name = Inr 0)
   \<and> (\<forall>py_int frm a1 a2 a3.
         form_answer py_int frm ''answer1'' = Inr a1 \<and>
         form_answer py_int frm ''answer2'' = Inr a2 \<and>
         form_answer py_int frm ''answer3'' = Inr a3 \<longrightarrow>
         civic_quiz py_int POST frm =
           (case calculate_civic_engagement_score [a1, a2, a3] of
              Inl e \<Rightarrow> Inl e
            | Inr score \<Rightarrow> Inr (Render ''quiz_result.html'' (ScoreContext score))))
   \<and> (\<forall>py_int frm.
         frm ''answer1'' = None \<and> frm ''answer2'' = None \<and> frm ''answer3'' = None \<longrightarrow>
         civic_quiz py_int POST frm = Inr (Render ''quiz_result.html'' (ScoreContext (Finite 0))))"
proof (intro conjI allI impI)
  fix py_int :: "string \<Rightarrow> py_error + int" and frm :: form
  assume "frm ''answer1'' = None \<and> frm ''answer2'' = None \<and> frm ''answer3'' = None"
  then have "form_answer py_int frm ''answer1'' = Inr 0" "form_answer py_int frm ''answer2'' = Inr 0"
    "form_answer py_int frm ''answer3'' = Inr 0"
    by (simp_all add: form_answer_def)
  from civic_quiz_answers[OF this]
  show "civic_quiz py_int POST frm = Inr (Render ''quiz_result.html'' (ScoreContext (Finite 0)))"
    by (simp add: score_all_wrong)
next
  fix py_int :: "string \<Rightarrow> py_error + int" and frm :: form and name
  assume "frm name = None"
  then show "form_answer py_int frm name = Inr 0" by (simp add: form_answer_def)
next
  fix py_int :: "string \<Rightarrow> py_error + int" and frm :: form and a1 a2 a3
  assume "form_answer py_int frm ''answer1'' = Inr a1 \<and>
         form_answer py_int frm ''answer2'' = Inr a2 \<and>
         form_answer py_int frm ''answer3'' = Inr a3"
  then show "civic_quiz py_int POST frm =
           (case calculate_civic_engagement_score [a1, a2, a3] of
              Inl e \<Rightarrow> Inl e
            | Inr score \<Rightarrow> Inr (Render ''quiz_result.html'' (ScoreContext score)))"
    using civic_quiz_answers by blast
qed

theorem quiz_absent_answers_are_zero_witness:
  "[''answer1'' \<mapsto> ''1'', ''answer3'' \<mapsto> ''1''] ''answer2'' = None
   \<and> form_answer bit_int [''answer1'' \<mapsto> ''1'', ''answer3'' \<mapsto> ''1''] ''answer2'' = Inr 0
   \<and> civic_quiz bit_int POST [''answer1'' \<mapsto> ''1'', ''answer3'' \<mapsto> ''1'']
       = Inr (Render ''quiz_result.html'' (ScoreContext (float_of_tenths 667)))
   \<and> Map.empty ''answer1'' = None \<and> Map.empty ''answer2'' = None \<and> Map.empty ''answer3'' = None
   \<and> civic_quiz bit_int POST Map.empty
       = Inr (Render ''quiz_result.html'' (ScoreContext (Finite 0)))"
proof -
  let ?f = "[''answer1'' \<mapsto> ''1'', ''answer3'' \<mapsto> ''1'']"
  note T = quiz_absent_answers_are_zero
  have n: "?f ''answer2'' = None" by simp
  from T n have a2: "form_answer bit_int ?f ''answer2'' = Inr 0" by blast
  have a1: "form_answer bit_int ?f ''answer1'' = Inr 1" by (simp add: form_answer_def bit_int_def)
  have a3: "form_answer bit_int ?f ''answer3'' = Inr 1" by (simp add: form_answer_def bit_int_def)
  from T a1 a2 a3 have "civic_quiz bit_int POST ?f =
           (case calculate_civic_engagement_score [1, 0, 1] of
              Inl e \<Rightarrow> Inl e
            | Inr score \<Rightarrow> Inr (Render ''quiz_result.html'' (ScoreContext score)))"
    by blast
  then have q: "civic_quiz bit_int POST ?f
       = Inr (Render ''quiz_result.html'' (ScoreContext (float_of_tenths 667)))"
    by (simp add: score_two_of_three)
  have m: "Map.empty ''answer1'' = None \<and> Map.empty ''answer2'' = None
      \<and> Map.empty ''answer3'' = None"
    by simp
  from T[THEN conjunct2, THEN conjunct2, rule_format, of Map.empty bit_int, OF m]
  have e: "civic_quiz bit_int POST Map.empty
       = Inr (Render ''quiz_result.html'' (ScoreContext (Finite 0)))" .
  show ?thesis using n a2 q e by simp
qed

end
